theory Spec2Isabelle
  imports Main "HOL-Library.Signed_Division" "HOL-Library.Word" "HOL-Library.Multiset"
begin

section \<open>Hex coordinates (hexcoord.go, hex.go)\<close>

text \<open>
  Go's \<^verbatim>\<open>int\<close> is modelled by \<^typ>\<open>int\<close>; the one place where the code narrows an
  integer (\<^verbatim>\<open>int32(c.X)\<close> in \<^verbatim>\<open>ToProto\<close>) is modelled with 32-bit words. Go's \<^verbatim>\<open>/\<close> and
  \<^verbatim>\<open>%\<close> truncate towards zero: they are \<open>sdiv\<close> and \<open>smod\<close>.

  Every \<^verbatim>\<open>panic\<close> and every returned \<^verbatim>\<open>error\<close> of the source is a value of
  type \<open>error\<close>. The source has no named error types; the constructors are named after
  the condition and carry the source's message in the comment.
\<close>

datatype error =
    InvalidCoordinate   \<comment> \<open>TryNewHex: "no such hex"\<close>
  | OddCoordinateSum    \<comment> \<open>Radius: "programming error: sum of hex coordinates is odd"\<close>
  | IndexOutOfRange     \<comment> \<open>a slice indexed outside its bounds (run-time panic)\<close>
  | FrozenSetMutation   \<comment> \<open>ensureThawed: "attempting to modify frozen HexSet"\<close>
  | NotInitialized      \<comment> \<open>hexSetBottom.MaxRadius: "hexSetBottom not initialized properly"\<close>
  | OutOfOrder          \<comment> \<open>HexSetWithHolesFilled: "ToOrderedList() returned p after current"\<close>
  | NilTypeAssertion    \<comment> \<open>the type assertion headUncast.(HexCoord) on the nil of an empty queue\<close>
  | NilDereference      \<comment> \<open>a method called through a pointer that refers to no object\<close>
  | StackOverflow       \<comment> \<open>a recursion through parent pointers that never reaches a primitive set\<close>

record HexCoord =
  X :: int
  Y :: int

datatype HexDir = North | Northwest | Southwest | South | Southeast | Northeast

definition OrderedDirections :: "HexDir list" where
  "OrderedDirections = [North, Northwest, Southwest, South, Southeast, Northeast]"


fun Directions :: "HexDir \<Rightarrow> HexCoord" where
  "Directions North = \<lparr>X = 0, Y = 2\<rparr>"
| "Directions Northwest = \<lparr>X = -1, Y = 1\<rparr>"
| "Directions Southwest = \<lparr>X = -1, Y = -1\<rparr>"
| "Directions South = \<lparr>X = 0, Y = -2\<rparr>"
| "Directions Southeast = \<lparr>X = 1, Y = -1\<rparr>"
| "Directions Northeast = \<lparr>X = 1, Y = 1\<rparr>"

definition Origin :: HexCoord where
  "Origin = \<lparr>X = 0, Y = 0\<rparr>"

definition NewHex :: "int \<Rightarrow> int \<Rightarrow> HexCoord" where
  "NewHex x y = \<lparr>X = x, Y = y\<rparr>"

definition TryNewHex :: "int \<Rightarrow> int \<Rightarrow> error + HexCoord" where
  "TryNewHex x y =
     (let xEven = (x smod 2 = 0);
          yEven = (y smod 2 = 0)
      in if xEven \<noteq> yEven then Inl InvalidCoordinate else Inr (NewHex x y))"

text \<open>
  The doc comment of the type: (X,Y) is a valid hex coordinate if and only if X and Y are
  of equal parity.
\<close>

definition valid_hex :: "HexCoord \<Rightarrow> bool" where
  "valid_hex c = (even (X c) = even (Y c))"

definition AbsX :: "HexCoord \<Rightarrow> int" where
  "AbsX c = (if X c \<ge> 0 then X c else - X c)"

definition AbsY :: "HexCoord \<Rightarrow> int" where
  "AbsY c = (if Y c \<ge> 0 then Y c else - Y c)"

definition Radius :: "HexCoord \<Rightarrow> error + int" where
  "Radius c =
     (let rv = AbsX c + AbsY c
      in if rv smod 2 \<noteq> 0 then Inl OddCoordinateSum
         else
           let smallSteps = AbsX c;
               bigSteps = (AbsY c - AbsX c) sdiv 2;
               bigSteps = (if bigSteps < 0 then 0 else bigSteps)
           in Inr (bigSteps + smallSteps))"

definition AddMultDelta :: "HexCoord \<Rightarrow> int \<Rightarrow> HexCoord \<Rightarrow> HexCoord" where
  "AddMultDelta c m d = \<lparr>X = X c + m * X d, Y = Y c + m * Y d\<rparr>"

definition Negation :: "HexCoord \<Rightarrow> HexCoord" where
  "Negation c = AddMultDelta Origin (- 1) c"

definition AddDelta :: "HexCoord \<Rightarrow> HexCoord \<Rightarrow> HexCoord" where
  "AddDelta c d = AddMultDelta c 1 d"


text \<open>
  \<^verbatim>\<open>Move\<close>: the loop over \<^verbatim>\<open>ds\<close> with its variable \<^verbatim>\<open>rv\<close>. The loop body assigns
  \<^verbatim>\<open>rv = HexCoord{c.X + dc.X, c.Y + dc.Y}\<close>: it reads the receiver \<^verbatim>\<open>c\<close>, not \<^verbatim>\<open>rv\<close>.
\<close>

fun Move_loop :: "HexCoord \<Rightarrow> HexCoord \<Rightarrow> HexDir list \<Rightarrow> HexCoord" where
  "Move_loop c rv [] = rv"
| "Move_loop c rv (d # ds) =
     (let dc = Directions d
      in Move_loop c \<lparr>X = X c + X dc, Y = Y c + Y dc\<rparr> ds)"

definition Move :: "HexCoord \<Rightarrow> HexDir list \<Rightarrow> HexCoord" where
  "Move c ds = Move_loop c c ds"

text \<open>
  What the specification says of \<^verbatim>\<open>Move\<close>: start at \<open>c\<close> and successively add the
  delta of each direction, in order. This definition follows the specification's words;
  it is compared with \<open>Move\<close> below.
\<close>

definition Move_spec :: "HexCoord \<Rightarrow> HexDir list \<Rightarrow> HexCoord" where
  "Move_spec c ds = foldl (\<lambda>p d. AddDelta p (Directions d)) c ds"

definition Neighbours :: "HexCoord \<Rightarrow> HexCoord list" where
  "Neighbours c = map (\<lambda>d. AddDelta c (Directions d)) OrderedDirections"

definition IsZero :: "HexCoord \<Rightarrow> bool" where
  "IsZero c = (X c = 0 \<and> Y c = 0)"




subsection \<open>The protobuf encoding of a coordinate\<close>

text \<open>
  The message type \<^verbatim>\<open>pb.HexCoord\<close> is declared in package \<^verbatim>\<open>hexpb\<close>, which is not among
  the sources. \<^verbatim>\<open>ToProto\<close> builds it as \<^verbatim>\<open>&pb.HexCoord{X: int32(c.X), Y: int32(c.Y)}\<close>,
  so its two fields are 32-bit signed integers; \<^verbatim>\<open>int32(v)\<close> keeps the low 32 bits of
  \<^verbatim>\<open>v\<close> (\<open>word_of_int\<close>) and \<^verbatim>\<open>int(p.X)\<close> reads them back signed (\<open>sint\<close>).
\<close>

record pb_HexCoord =
  pb_X :: "32 word"
  pb_Y :: "32 word"

definition ToProto :: "HexCoord \<Rightarrow> pb_HexCoord" where
  "ToProto c = \<lparr>pb_X = word_of_int (X c), pb_Y = word_of_int (Y c)\<rparr>"

definition HexFromProto :: "pb_HexCoord \<Rightarrow> error + HexCoord" where
  "HexFromProto p = TryNewHex (sint (pb_X p)) (sint (pb_Y p))"

section \<open>The primitive storage hexSetBottom (hex.go)\<close>

text \<open>
  \<^verbatim>\<open>members\<close> is a Go \<^verbatim>\<open>map[HexCoord]bool\<close> whose values are always \<^verbatim>\<open>true\<close>: only its
  keys matter. They are kept as a list without repetition; the order of the list stands
  for the order in which Go iterates over the map, which the language leaves unspecified,
  so nothing below depends on it.

  A method that mutates its receiver returns the panic it raised, if any, and the
  receiver as the method left it: \<^verbatim>\<open>Add\<close> stores the key before it calls
  \<^verbatim>\<open>p.Radius()\<close>, so the key is stored even when \<^verbatim>\<open>Radius\<close> panics.
\<close>

record hexSetBottom =
  members :: "HexCoord list"
  cachedMaxRadius :: int

definition hexSetBottom_Add :: "hexSetBottom \<Rightarrow> HexCoord \<Rightarrow> error option \<times> hexSetBottom" where
  "hexSetBottom_Add h p =
     (let h = h\<lparr>members := (if p \<in> set (members h) then members h else members h @ [p])\<rparr>
      in case Radius p of
           Inl e \<Rightarrow> (Some e, h)
         | Inr r \<Rightarrow>
             if cachedMaxRadius h \<noteq> - 1 \<and> r > cachedMaxRadius h
             then (None, h\<lparr>cachedMaxRadius := r\<rparr>)
             else (None, h))"

definition hexSetBottom_Remove :: "hexSetBottom \<Rightarrow> HexCoord \<Rightarrow> error option \<times> hexSetBottom" where
  "hexSetBottom_Remove h p =
     (let h = h\<lparr>members := removeAll p (members h)\<rparr>
      in if cachedMaxRadius h \<noteq> - 1
         then (case Radius p of
                 Inl e \<Rightarrow> (Some e, h)
               | Inr r \<Rightarrow>
                   if r = cachedMaxRadius h then (None, h\<lparr>cachedMaxRadius := - 1\<rparr>)
                   else (None, h))
         else (None, h))"

definition hexSetBottom_Enumerate :: "hexSetBottom \<Rightarrow> HexCoord list" where
  "hexSetBottom_Enumerate h = members h"

definition hexSetBottom_Size :: "hexSetBottom \<Rightarrow> int" where
  "hexSetBottom_Size h = int (length (members h))"

definition hexSetBottom_Contains :: "hexSetBottom \<Rightarrow> HexCoord \<Rightarrow> bool" where
  "hexSetBottom_Contains h p = (p \<in> set (members h))"

text \<open>
  The loop \<^verbatim>\<open>for p := range ... { r := p.Radius(); if r > rv { rv = r } }\<close> of
  \<^verbatim>\<open>hexSetBottom.MaxRadius\<close>, and of the fall-back of \<^verbatim>\<open>hexSetModifiedClone.MaxRadius\<close>.
\<close>

fun maxRadius_loop :: "HexCoord list \<Rightarrow> int \<Rightarrow> error + int" where
  "maxRadius_loop [] rv = Inr rv"
| "maxRadius_loop (p # ps) rv =
     (case Radius p of
        Inl e \<Rightarrow> Inl e
      | Inr r \<Rightarrow> maxRadius_loop ps (if r > rv then r else rv))"

definition hexSetBottom_MaxRadius :: "hexSetBottom \<Rightarrow> (error + int) \<times> hexSetBottom" where
  "hexSetBottom_MaxRadius h =
     (if cachedMaxRadius h = 0 then
        (if hexSetBottom_Size h = 0 \<or> (hexSetBottom_Size h = 1 \<and> hexSetBottom_Contains h Origin)
         then (Inr 0, h)
         else (Inl NotInitialized, h))
      else if cachedMaxRadius h \<noteq> - 1 then (Inr (cachedMaxRadius h), h)
      else (case maxRadius_loop (members h) 0 of
              Inl e \<Rightarrow> (Inl e, h)
            | Inr rv \<Rightarrow> (Inr rv, h\<lparr>cachedMaxRadius := rv\<rparr>)))"

text \<open>
The storage of \<^verbatim>\<open>NewHexSet()\<close>: no members, no cached radius.
\<close>

definition new_hexSetBottom :: hexSetBottom where
  "new_hexSetBottom = \<lparr>members = [], cachedMaxRadius = - 1\<rparr>"

section \<open>Cell sets as values (hex.go)\<close>

text \<open>
  \<^verbatim>\<open>hexSetIntf\<close> has two implementations: \<^verbatim>\<open>hexSetBottom\<close> and
  \<^verbatim>\<open>hexSetModifiedClone\<close>, a delta (\<^verbatim>\<open>mutated\<close>, \<^verbatim>\<open>additions\<close>, \<^verbatim>\<open>removals\<close>) over
  the set \<^verbatim>\<open>frozenHexSet\<close>. In this section a set is the value of its \<^verbatim>\<open>impl\<close>, with the
  parent of a clone held by value: this is what the algorithms of \<^verbatim>\<open>algo.go\<close> see of a
  set, since they create their working sets with \<^verbatim>\<open>NewHexSet()\<close>, never freeze or share
  them, and only read the set they are given. (The sets as objects that refer to each
  other, with \<^verbatim>\<open>frozen\<close> and \<^verbatim>\<open>cloneChildren\<close>, are modelled in a later section.)

  \<^verbatim>\<open>additions\<close> and \<^verbatim>\<open>removals\<close> are created by \<^verbatim>\<open>ensureMutable\<close> with
  \<^verbatim>\<open>NewHexSet()\<close> and nothing else refers to them, so they are primitive storages held by
  value; before \<^verbatim>\<open>ensureMutable\<close> they are nil and never read (\<^verbatim>\<open>mutated\<close> is false), and
  the model holds the empty storage there. The first three lines of \<^verbatim>\<open>Add\<close> and
  \<^verbatim>\<open>Remove\<close> on a clone are \<^verbatim>\<open>ensureMutable\<close>.
\<close>

datatype hexSetIntf =
    Bottom hexSetBottom
  | ModifiedClone hexSetIntf bool hexSetBottom hexSetBottom

fun Contains :: "hexSetIntf \<Rightarrow> HexCoord \<Rightarrow> bool" where
  "Contains (Bottom h) p = hexSetBottom_Contains h p"
| "Contains (ModifiedClone frozenHexSet mutated additions removals) p =
     (if Contains frozenHexSet p
      then \<not> mutated \<or> \<not> hexSetBottom_Contains removals p
      else mutated \<and> hexSetBottom_Contains additions p)"

fun Size :: "hexSetIntf \<Rightarrow> int" where
  "Size (Bottom h) = hexSetBottom_Size h"
| "Size (ModifiedClone frozenHexSet mutated additions removals) =
     (let rv = Size frozenHexSet
      in if mutated then rv + (hexSetBottom_Size additions - hexSetBottom_Size removals) else rv)"

fun Enumerate :: "hexSetIntf \<Rightarrow> HexCoord list" where
  "Enumerate (Bottom h) = hexSetBottom_Enumerate h"
| "Enumerate (ModifiedClone frozenHexSet mutated additions removals) =
     filter (\<lambda>p. \<not> mutated \<or> \<not> hexSetBottom_Contains removals p) (Enumerate frozenHexSet)
     @ (if mutated then hexSetBottom_Enumerate additions else [])"

fun MaxRadius :: "hexSetIntf \<Rightarrow> (error + int) \<times> hexSetIntf" where
  "MaxRadius (Bottom h) = (case hexSetBottom_MaxRadius h of (res, h') \<Rightarrow> (res, Bottom h'))"
| "MaxRadius (ModifiedClone frozenHexSet mutated additions removals) =
     (case MaxRadius frozenHexSet of
        (Inl e, frozenHexSet) \<Rightarrow> (Inl e, ModifiedClone frozenHexSet mutated additions removals)
      | (Inr maxR, frozenHexSet) \<Rightarrow>
          if mutated then
            (case hexSetBottom_MaxRadius removals of
               (Inl e, removals) \<Rightarrow> (Inl e, ModifiedClone frozenHexSet mutated additions removals)
             | (Inr r, removals) \<Rightarrow>
                 if r = maxR then
                   (case maxRadius_loop
                           (Enumerate (ModifiedClone frozenHexSet mutated additions removals)) 0 of
                      Inl e \<Rightarrow> (Inl e, ModifiedClone frozenHexSet mutated additions removals)
                    | Inr maxR \<Rightarrow> (Inr maxR, ModifiedClone frozenHexSet mutated additions removals))
                 else
                   (case hexSetBottom_MaxRadius additions of
                      (Inl e, additions) \<Rightarrow>
                        (Inl e, ModifiedClone frozenHexSet mutated additions removals)
                    | (Inr r, additions) \<Rightarrow>
                        (Inr (if r > maxR then r else maxR),
                         ModifiedClone frozenHexSet mutated additions removals)))
          else (Inr maxR, ModifiedClone frozenHexSet mutated additions removals))"

fun Add :: "hexSetIntf \<Rightarrow> HexCoord \<Rightarrow> error option \<times> hexSetIntf" where
  "Add (Bottom h) p = (case hexSetBottom_Add h p of (e, h') \<Rightarrow> (e, Bottom h'))"
| "Add (ModifiedClone frozenHexSet mutated additions removals) p =
     (let additions = (if mutated then additions else new_hexSetBottom);
          removals = (if mutated then removals else new_hexSetBottom);
          mutated = True;
          (e, removals) = (if hexSetBottom_Contains removals p
                           then hexSetBottom_Remove removals p else (None, removals))
      in case e of
           Some e \<Rightarrow> (Some e, ModifiedClone frozenHexSet mutated additions removals)
         | None \<Rightarrow>
             if Contains frozenHexSet p
             then (None, ModifiedClone frozenHexSet mutated additions removals)
             else (case hexSetBottom_Add additions p of
                     (e, additions) \<Rightarrow> (e, ModifiedClone frozenHexSet mutated additions removals)))"

fun Remove :: "hexSetIntf \<Rightarrow> HexCoord \<Rightarrow> error option \<times> hexSetIntf" where
  "Remove (Bottom h) p = (case hexSetBottom_Remove h p of (e, h') \<Rightarrow> (e, Bottom h'))"
| "Remove (ModifiedClone frozenHexSet mutated additions removals) p =
     (let additions = (if mutated then additions else new_hexSetBottom);
          removals = (if mutated then removals else new_hexSetBottom);
          mutated = True;
          (e, additions) = (if hexSetBottom_Contains additions p
                            then hexSetBottom_Remove additions p else (None, additions))
      in case e of
           Some e \<Rightarrow> (Some e, ModifiedClone frozenHexSet mutated additions removals)
         | None \<Rightarrow>
             if \<not> Contains frozenHexSet p
             then (None, ModifiedClone frozenHexSet mutated additions removals)
             else (case hexSetBottom_Add removals p of
                     (e, removals) \<Rightarrow> (e, ModifiedClone frozenHexSet mutated additions removals)))"

definition NewHexSet :: hexSetIntf where
  "NewHexSet = Bottom new_hexSetBottom"

text \<open>
  \<^verbatim>\<open>Clone\<close>, \<^verbatim>\<open>InPlaceUnion\<close> (which calls \<^verbatim>\<open>h.impl.Add\<close>) and \<^verbatim>\<open>Union\<close>.
  \<^verbatim>\<open>ToOrderedList\<close> copies the enumeration and sorts it with \<^verbatim>\<open>Less\<close>; the sort is an
  insertion sort here (the elements of a set are distinct, so every sort has the same result).
\<close>

definition Clone :: "hexSetIntf \<Rightarrow> hexSetIntf" where
  "Clone h = ModifiedClone h False new_hexSetBottom new_hexSetBottom"




fun InPlaceUnion_loop :: "hexSetIntf \<Rightarrow> HexCoord list \<Rightarrow> error option \<times> hexSetIntf" where
  "InPlaceUnion_loop h [] = (None, h)"
| "InPlaceUnion_loop h (p # ps) =
     (case Add h p of
        (Some e, h') \<Rightarrow> (Some e, h')
      | (None, h') \<Rightarrow> InPlaceUnion_loop h' ps)"



section \<open>The priority queue of package lane\<close>









section \<open>Hole filling and the outer border (algo.go, hex.go)\<close>








subsection \<open>The flood loop terminates\<close>

text \<open>
  A cell can be in the queue several times, and a cell that is already in \<^verbatim>\<open>body\<close> can be
  popped again. Still every iteration decreases, lexicographically, the number of cells
  that are within the radius bound or in the queue and not yet in \<^verbatim>\<open>body\<close>, and then the
  number of queue items whose cell is in \<^verbatim>\<open>body\<close>.
\<close>

lemma smod_2_eq_0_iff: "((x::int) smod 2 = 0) = even x"
  by (auto simp: smod_int_alt_def sgn_if elim: evenE oddE)

lemma even_sdiv_2: "even (a::int) \<Longrightarrow> a sdiv 2 = a div 2"
  by (auto simp: signed_divide_int_def sgn_if elim!: evenE)

lemma Radius_Inr_bounds:
  assumes "Radius c = Inr r"
  shows "\<bar>X c\<bar> \<le> r" and "\<bar>Y c\<bar> \<le> 3 * r"
proof -
  have ax: "AbsX c = \<bar>X c\<bar>" and ay: "AbsY c = \<bar>Y c\<bar>"
    by (simp_all add: AbsX_def AbsY_def)
  have ev: "even (\<bar>Y c\<bar> - \<bar>X c\<bar>)"
    using assms by (auto simp: Radius_def Let_def smod_2_eq_0_iff ax ay split: if_splits)
  then obtain k where k: "\<bar>Y c\<bar> - \<bar>X c\<bar> = 2 * k" by (elim evenE)
  have "(2 * k) sdiv 2 = k" by (simp add: even_sdiv_2)
  then have "r = (if k < 0 then 0 else k) + \<bar>X c\<bar>"
    using assms k by (auto simp: Radius_def Let_def ax ay split: if_splits)
  with k show "\<bar>X c\<bar> \<le> r" and "\<bar>Y c\<bar> \<le> 3 * r"
    by (auto split: if_splits)
qed



lemma hexSetBottom_Add_members:
  "hexSetBottom_Add h p = (e, h') \<Longrightarrow> set (members h') = insert p (set (members h))"
  by (auto simp: hexSetBottom_Add_def Let_def split: sum.splits if_splits)

lemma hexSetBottom_Remove_members:
  "hexSetBottom_Remove h p = (e, h') \<Longrightarrow> set (members h') = set (members h) - {p}"
  by (auto simp: hexSetBottom_Remove_def Let_def split: sum.splits if_splits)

lemma Contains_Add:
  assumes "Add s p = (None, s')"
  shows "Contains s' c = (Contains s c \<or> c = p)"
proof (cases s)
  case (Bottom h)
  with assms show ?thesis
    by (auto simp: hexSetBottom_Contains_def split: prod.splits dest: hexSetBottom_Add_members)
next
  case (ModifiedClone f m a r)
  define a0 where "a0 = (if m then a else new_hexSetBottom)"
  define r0 where "r0 = (if m then r else new_hexSetBottom)"
  obtain e1 r1 where rm:
    "(if hexSetBottom_Contains r0 p then hexSetBottom_Remove r0 p else (None, r0)) = (e1, r1)"
    by fastforce
  have r1: "set (members r1) = set (members r0) - {p}"
    using rm by (auto simp: hexSetBottom_Contains_def split: if_splits
                      dest: hexSetBottom_Remove_members)
  obtain e2 a2 where ad: "hexSetBottom_Add a0 p = (e2, a2)"
    by fastforce
  have a2: "set (members a2) = insert p (set (members a0))"
    using ad by (rule hexSetBottom_Add_members)
  have old: "Contains s c = (if Contains f c then c \<notin> set (members r0) else c \<in> set (members a0))"
    by (simp add: ModifiedClone a0_def r0_def hexSetBottom_Contains_def new_hexSetBottom_def)
  have unfolded: "Add s p =
      (case e1 of Some e \<Rightarrow> (Some e, ModifiedClone f True a0 r1)
       | None \<Rightarrow> if Contains f p then (None, ModifiedClone f True a0 r1)
                 else (e2, ModifiedClone f True a2 r1))"
    unfolding ModifiedClone Add.simps Let_def a0_def [symmetric] r0_def [symmetric] rm
    by (simp add: ad split: option.splits)
  show ?thesis
  proof (cases "Contains f p")
    case True
    with assms unfolded have "s' = ModifiedClone f True a0 r1"
      by (auto split: option.splits)
    with True show ?thesis
      by (auto simp: old r1 hexSetBottom_Contains_def)
  next
    case False
    with assms unfolded have "s' = ModifiedClone f True a2 r1"
      by (auto split: option.splits)
    with False show ?thesis
      by (auto simp: old r1 a2 hexSetBottom_Contains_def)
  qed
qed

















subsection \<open>Notions the statements use\<close>

text \<open>
  A set is \<open>proper\<close> when its enumeration lists no coordinate twice, every coordinate
  it lists is valid, and its \<^verbatim>\<open>MaxRadius\<close> returns.

  A primitive storage is in order (\<open>bottom_ok\<close>) when its keys are distinct and valid
  and its cached maximum radius, when there is one, is the maximum radius of its members.
  The storage of a set built from \<^verbatim>\<open>NewHexSet()\<close> by adding and removing valid coordinates
  is in order, and a primitive set whose storage is in order is proper; both are proved
  below.
\<close>

definition proper :: "hexSetIntf \<Rightarrow> bool" where
  "proper s =
     (distinct (Enumerate s) \<and> list_all valid_hex (Enumerate s) \<and>
      (case fst (MaxRadius s) of Inl e \<Rightarrow> False | Inr maxR \<Rightarrow> True))"

definition bottom_ok :: "hexSetBottom \<Rightarrow> bool" where
  "bottom_ok h =
     (distinct (members h) \<and> list_all valid_hex (members h) \<and>
      (cachedMaxRadius h = - 1 \<or> maxRadius_loop (members h) 0 = Inr (cachedMaxRadius h)))"










definition ring1 :: hexSetIntf where
  "ring1 = snd (InPlaceUnion_loop NewHexSet (Neighbours Origin))"



section \<open>Cell sets as objects in a store (hex.go)\<close>

text \<open>
  A \<^verbatim>\<open>*HexSet\<close> is an address; the store maps the addresses in use to objects and knows
  the next free one. A clone refers to its parent by address, and a set that is not frozen
  lists the addresses of its clones in \<^verbatim>\<open>cloneChildren\<close>. A function that changes the store
  returns its result (or the panic) together with the store as it left it.

  \<^verbatim>\<open>Contains\<close> and \<^verbatim>\<open>Enumerate\<close> follow the parent pointers. A chain of parents that
  visits more objects than the store holds runs in a cycle, where the Go recursion never
  returns: that is the \<open>StackOverflow\<close> result.

  As in the section on sets as values, \<^verbatim>\<open>additions\<close> and \<^verbatim>\<open>removals\<close> of a clone are
  primitive storages held by value: \<^verbatim>\<open>ensureMutable\<close> creates them and nothing else refers
  to them.
\<close>

type_synonym addr = nat

record hexSetModifiedClone =
  frozenHexSet :: addr
  mutated :: bool
  additions :: hexSetBottom
  removals :: hexSetBottom

datatype hexSetImpl = ImplBottom hexSetBottom | ImplModifiedClone hexSetModifiedClone

record HexSet =
  impl :: hexSetImpl
  frozen :: bool
  cloneChildren :: "addr list"

record Heap =
  objects :: "addr \<Rightarrow> HexSet option"
  nextAddr :: addr

definition empty_heap :: Heap where
  "empty_heap = \<lparr>objects = (\<lambda>a. None), nextAddr = 0\<rparr>"

definition alloc :: "HexSet \<Rightarrow> Heap \<Rightarrow> addr \<times> Heap" where
  "alloc s \<sigma> = (nextAddr \<sigma>, \<lparr>objects = (objects \<sigma>)(nextAddr \<sigma> \<mapsto> s), nextAddr = Suc (nextAddr \<sigma>)\<rparr>)"

definition put :: "addr \<Rightarrow> HexSet \<Rightarrow> Heap \<Rightarrow> Heap" where
  "put a s \<sigma> = \<sigma>\<lparr>objects := (objects \<sigma>)(a \<mapsto> s)\<rparr>"

definition raise :: "error option \<Rightarrow> error + unit" where
  "raise e = (case e of None \<Rightarrow> Inr () | Some e \<Rightarrow> Inl e)"

definition HexSet_NewHexSet :: "Heap \<Rightarrow> addr \<times> Heap" where
  "HexSet_NewHexSet \<sigma> =
     alloc \<lparr>impl = ImplBottom new_hexSetBottom, frozen = False, cloneChildren = []\<rparr> \<sigma>"

definition HexSet_Freeze :: "addr \<Rightarrow> Heap \<Rightarrow> (error + unit) \<times> Heap" where
  "HexSet_Freeze a \<sigma> =
     (case objects \<sigma> a of
        None \<Rightarrow> (Inl NilDereference, \<sigma>)
      | Some s \<Rightarrow> (Inr (), put a (s\<lparr>frozen := True\<rparr>) \<sigma>))"

fun Contains_rec :: "nat \<Rightarrow> Heap \<Rightarrow> addr \<Rightarrow> HexCoord \<Rightarrow> error + bool" where
  "Contains_rec 0 \<sigma> a p = Inl StackOverflow"
| "Contains_rec (Suc n) \<sigma> a p =
     (case objects \<sigma> a of
        None \<Rightarrow> Inl NilDereference
      | Some s \<Rightarrow>
          (case impl s of
             ImplBottom h \<Rightarrow> Inr (hexSetBottom_Contains h p)
           | ImplModifiedClone h \<Rightarrow>
               (case Contains_rec n \<sigma> (frozenHexSet h) p of
                  Inl e \<Rightarrow> Inl e
                | Inr True \<Rightarrow> Inr (\<not> mutated h \<or> \<not> hexSetBottom_Contains (removals h) p)
                | Inr False \<Rightarrow> Inr (mutated h \<and> hexSetBottom_Contains (additions h) p))))"

definition HexSet_Contains :: "Heap \<Rightarrow> addr \<Rightarrow> HexCoord \<Rightarrow> error + bool" where
  "HexSet_Contains \<sigma> a p = Contains_rec (nextAddr \<sigma>) \<sigma> a p"

fun Enumerate_rec :: "nat \<Rightarrow> Heap \<Rightarrow> addr \<Rightarrow> error + HexCoord list" where
  "Enumerate_rec 0 \<sigma> a = Inl StackOverflow"
| "Enumerate_rec (Suc n) \<sigma> a =
     (case objects \<sigma> a of
        None \<Rightarrow> Inl NilDereference
      | Some s \<Rightarrow>
          (case impl s of
             ImplBottom h \<Rightarrow> Inr (hexSetBottom_Enumerate h)
           | ImplModifiedClone h \<Rightarrow>
               (case Enumerate_rec n \<sigma> (frozenHexSet h) of
                  Inl e \<Rightarrow> Inl e
                | Inr ps \<Rightarrow>
                    Inr (filter (\<lambda>p. \<not> mutated h \<or> \<not> hexSetBottom_Contains (removals h) p) ps
                         @ (if mutated h then hexSetBottom_Enumerate (additions h) else [])))))"

definition HexSet_Enumerate :: "Heap \<Rightarrow> addr \<Rightarrow> error + HexCoord list" where
  "HexSet_Enumerate \<sigma> a = Enumerate_rec (nextAddr \<sigma>) \<sigma> a"

definition ensureMutable :: "hexSetModifiedClone \<Rightarrow> hexSetModifiedClone" where
  "ensureMutable h =
     (if \<not> mutated h
      then h\<lparr>mutated := True, additions := new_hexSetBottom, removals := new_hexSetBottom\<rparr>
      else h)"

text \<open>
\<^verbatim>\<open>h.impl.Add(p)\<close> and \<^verbatim>\<open>h.impl.Remove(p)\<close> for the set at address \<open>a\<close>.
\<close>

definition impl_Add :: "addr \<Rightarrow> HexCoord \<Rightarrow> Heap \<Rightarrow> (error + unit) \<times> Heap" where
  "impl_Add a p \<sigma> =
     (case objects \<sigma> a of
        None \<Rightarrow> (Inl NilDereference, \<sigma>)
      | Some s \<Rightarrow>
          (case impl s of
             ImplBottom h \<Rightarrow>
               (case hexSetBottom_Add h p of
                  (e, h) \<Rightarrow> (raise e, put a (s\<lparr>impl := ImplBottom h\<rparr>) \<sigma>))
           | ImplModifiedClone h \<Rightarrow>
               (let h = ensureMutable h;
                    (e, rm) = (if hexSetBottom_Contains (removals h) p
                               then hexSetBottom_Remove (removals h) p else (None, removals h));
                    h = h\<lparr>removals := rm\<rparr>;
                    \<sigma> = put a (s\<lparr>impl := ImplModifiedClone h\<rparr>) \<sigma>
                in case e of
                     Some e \<Rightarrow> (Inl e, \<sigma>)
                   | None \<Rightarrow>
                       (case HexSet_Contains \<sigma> (frozenHexSet h) p of
                          Inl e \<Rightarrow> (Inl e, \<sigma>)
                        | Inr True \<Rightarrow> (Inr (), \<sigma>)
                        | Inr False \<Rightarrow>
                            (case hexSetBottom_Add (additions h) p of
                               (e, ad) \<Rightarrow>
                                 (raise e,
                                  put a (s\<lparr>impl := ImplModifiedClone (h\<lparr>additions := ad\<rparr>)\<rparr>) \<sigma>))))))"

definition impl_Remove :: "addr \<Rightarrow> HexCoord \<Rightarrow> Heap \<Rightarrow> (error + unit) \<times> Heap" where
  "impl_Remove a p \<sigma> =
     (case objects \<sigma> a of
        None \<Rightarrow> (Inl NilDereference, \<sigma>)
      | Some s \<Rightarrow>
          (case impl s of
             ImplBottom h \<Rightarrow>
               (case hexSetBottom_Remove h p of
                  (e, h) \<Rightarrow> (raise e, put a (s\<lparr>impl := ImplBottom h\<rparr>) \<sigma>))
           | ImplModifiedClone h \<Rightarrow>
               (let h = ensureMutable h;
                    (e, ad) = (if hexSetBottom_Contains (additions h) p
                               then hexSetBottom_Remove (additions h) p else (None, additions h));
                    h = h\<lparr>additions := ad\<rparr>;
                    \<sigma> = put a (s\<lparr>impl := ImplModifiedClone h\<rparr>) \<sigma>
                in case e of
                     Some e \<Rightarrow> (Inl e, \<sigma>)
                   | None \<Rightarrow>
                       (case HexSet_Contains \<sigma> (frozenHexSet h) p of
                          Inl e \<Rightarrow> (Inl e, \<sigma>)
                        | Inr False \<Rightarrow> (Inr (), \<sigma>)
                        | Inr True \<Rightarrow>
                            (case hexSetBottom_Add (removals h) p of
                               (e, rm) \<Rightarrow>
                                 (raise e,
                                  put a (s\<lparr>impl := ImplModifiedClone (h\<lparr>removals := rm\<rparr>)\<rparr>) \<sigma>))))))"

fun impl_Add_loop :: "addr \<Rightarrow> HexCoord list \<Rightarrow> Heap \<Rightarrow> (error + unit) \<times> Heap" where
  "impl_Add_loop a [] \<sigma> = (Inr (), \<sigma>)"
| "impl_Add_loop a (p # ps) \<sigma> =
     (case impl_Add a p \<sigma> of
        (Inl e, \<sigma>) \<Rightarrow> (Inl e, \<sigma>)
      | (Inr _, \<sigma>) \<Rightarrow> impl_Add_loop a ps \<sigma>)"

text \<open>
  \<^verbatim>\<open>explicitClone\<close> calls \<^verbatim>\<open>rv.Add(p)\<close> on the set \<^verbatim>\<open>rv\<close> it has just made with
  \<^verbatim>\<open>NewHexSet()\<close>: that set is not frozen and has no clones, so \<^verbatim>\<open>ensureThawed\<close> returns
  at once and the call is \<^verbatim>\<open>rv.impl.Add(p)\<close>. \<open>rebase_children\<close> is the loop of
  \<^verbatim>\<open>ensureThawed\<close> that assigns \<^verbatim>\<open>ch.impl = &hexSetModifiedClone{frozenHexSet: rv}\<close>.
\<close>

definition HexSet_explicitClone :: "addr \<Rightarrow> Heap \<Rightarrow> (error + addr) \<times> Heap" where
  "HexSet_explicitClone a \<sigma> =
     (case HexSet_NewHexSet \<sigma> of
        (rv, \<sigma>) \<Rightarrow>
          (case HexSet_Enumerate \<sigma> a of
             Inl e \<Rightarrow> (Inl e, \<sigma>)
           | Inr ps \<Rightarrow>
               (case impl_Add_loop rv ps \<sigma> of
                  (Inl e, \<sigma>) \<Rightarrow> (Inl e, \<sigma>)
                | (Inr _, \<sigma>) \<Rightarrow> (Inr rv, \<sigma>))))"

fun rebase_children :: "addr \<Rightarrow> addr list \<Rightarrow> Heap \<Rightarrow> (error + unit) \<times> Heap" where
  "rebase_children rv [] \<sigma> = (Inr (), \<sigma>)"
| "rebase_children rv (ch # chs) \<sigma> =
     (case objects \<sigma> ch of
        None \<Rightarrow> (Inl NilDereference, \<sigma>)
      | Some c \<Rightarrow>
          rebase_children rv chs
            (put ch (c\<lparr>impl := ImplModifiedClone
                        \<lparr>frozenHexSet = rv, mutated = False,
                         additions = new_hexSetBottom, removals = new_hexSetBottom\<rparr>\<rparr>) \<sigma>))"

definition HexSet_ensureThawed :: "addr \<Rightarrow> Heap \<Rightarrow> (error + unit) \<times> Heap" where
  "HexSet_ensureThawed a \<sigma> =
     (case objects \<sigma> a of
        None \<Rightarrow> (Inl NilDereference, \<sigma>)
      | Some s \<Rightarrow>
          if frozen s then (Inl FrozenSetMutation, \<sigma>)
          else if length (cloneChildren s) \<noteq> 0 then
            (case HexSet_explicitClone a \<sigma> of
               (Inl e, \<sigma>) \<Rightarrow> (Inl e, \<sigma>)
             | (Inr rv, \<sigma>) \<Rightarrow>
                 (case HexSet_Freeze rv \<sigma> of
                    (Inl e, \<sigma>) \<Rightarrow> (Inl e, \<sigma>)
                  | (Inr _, \<sigma>) \<Rightarrow>
                      (case rebase_children rv (cloneChildren s) \<sigma> of
                         (Inl e, \<sigma>) \<Rightarrow> (Inl e, \<sigma>)
                       | (Inr _, \<sigma>) \<Rightarrow>
                           (case objects \<sigma> a of
                              None \<Rightarrow> (Inl NilDereference, \<sigma>)
                            | Some s \<Rightarrow> (Inr (), put a (s\<lparr>cloneChildren := []\<rparr>) \<sigma>)))))
          else (Inr (), \<sigma>))"

definition HexSet_Add :: "addr \<Rightarrow> HexCoord \<Rightarrow> Heap \<Rightarrow> (error + unit) \<times> Heap" where
  "HexSet_Add a x \<sigma> =
     (case HexSet_ensureThawed a \<sigma> of
        (Inl e, \<sigma>) \<Rightarrow> (Inl e, \<sigma>)
      | (Inr _, \<sigma>) \<Rightarrow> impl_Add a x \<sigma>)"

definition HexSet_Remove :: "addr \<Rightarrow> HexCoord \<Rightarrow> Heap \<Rightarrow> (error + unit) \<times> Heap" where
  "HexSet_Remove a x \<sigma> =
     (case HexSet_ensureThawed a \<sigma> of
        (Inl e, \<sigma>) \<Rightarrow> (Inl e, \<sigma>)
      | (Inr _, \<sigma>) \<Rightarrow> impl_Remove a x \<sigma>)"

definition HexSet_Clone :: "addr \<Rightarrow> Heap \<Rightarrow> (error + addr) \<times> Heap" where
  "HexSet_Clone a \<sigma> =
     (case alloc \<lparr>impl = ImplModifiedClone
                    \<lparr>frozenHexSet = a, mutated = False,
                     additions = new_hexSetBottom, removals = new_hexSetBottom\<rparr>,
                  frozen = False, cloneChildren = []\<rparr> \<sigma> of
        (rv, \<sigma>) \<Rightarrow>
          (case objects \<sigma> a of
             None \<Rightarrow> (Inl NilDereference, \<sigma>)
           | Some h \<Rightarrow>
               if \<not> frozen h
               then (Inr rv, put a (h\<lparr>cloneChildren := cloneChildren h @ [rv]\<rparr>) \<sigma>)
               else (Inr rv, \<sigma>)))"

definition HexSet_InPlaceUnion :: "addr \<Rightarrow> addr \<Rightarrow> Heap \<Rightarrow> (error + unit) \<times> Heap" where
  "HexSet_InPlaceUnion a x \<sigma> =
     (case HexSet_Enumerate \<sigma> x of
        Inl e \<Rightarrow> (Inl e, \<sigma>)
      | Inr ps \<Rightarrow> impl_Add_loop a ps \<sigma>)"

section \<open>Properties of the coordinate model\<close>

lemma TryNewHex_eq:
  "TryNewHex x y = (if even x = even y then Inr \<lparr>X = x, Y = y\<rparr> else Inl InvalidCoordinate)"
  by (simp add: TryNewHex_def NewHex_def smod_2_eq_0_iff)

lemma even_abs_iff: "even \<bar>x::int\<bar> = even x"
  by simp

lemma Radius_valid: "valid_hex c \<Longrightarrow> \<exists>n. Radius c = Inr n"
  by (auto simp: Radius_def valid_hex_def AbsX_def AbsY_def Let_def smod_2_eq_0_iff)










subsection \<open>Radius and neighbours\<close>

lemma Radius_Negation: "Radius (Negation c) = Radius c"
  by (simp add: Radius_def Negation_def AddMultDelta_def Origin_def AbsX_def AbsY_def)

lemma Radius_Origin: "Radius Origin = Inr 0"
  by (simp add: Radius_def Origin_def AbsX_def AbsY_def)

lemma Neighbours_iff: "n \<in> set (Neighbours c) \<longleftrightarrow> (\<exists>d. n = AddDelta c (Directions d))"
proof
  assume "n \<in> set (Neighbours c)"
  then show "\<exists>d. n = AddDelta c (Directions d)" by (auto simp: Neighbours_def)
next
  assume "\<exists>d. n = AddDelta c (Directions d)"
  then obtain d where "n = AddDelta c (Directions d)" ..
  moreover have "d \<in> set OrderedDirections" by (cases d) (simp_all add: OrderedDirections_def)
  ultimately show "n \<in> set (Neighbours c)" by (simp add: Neighbours_def)
qed

lemma step_back: "\<exists>d'. c = AddDelta (AddDelta c (Directions d)) (Directions d')"
proof (cases d)
  case North
  then show ?thesis by (intro exI [of _ South]) (simp add: AddDelta_def AddMultDelta_def)
next
  case Northwest
  then show ?thesis by (intro exI [of _ Southeast]) (simp add: AddDelta_def AddMultDelta_def)
next
  case Southwest
  then show ?thesis by (intro exI [of _ Northeast]) (simp add: AddDelta_def AddMultDelta_def)
next
  case South
  then show ?thesis by (intro exI [of _ North]) (simp add: AddDelta_def AddMultDelta_def)
next
  case Southeast
  then show ?thesis by (intro exI [of _ Northwest]) (simp add: AddDelta_def AddMultDelta_def)
next
  case Northeast
  then show ?thesis by (intro exI [of _ Southwest]) (simp add: AddDelta_def AddMultDelta_def)
qed

lemma Neighbours_symmetric: "n \<in> set (Neighbours c) \<Longrightarrow> c \<in> set (Neighbours n)"
  unfolding Neighbours_iff using step_back by blast

lemma Neighbours_irrefl: "c \<notin> set (Neighbours c)"
proof
  assume "c \<in> set (Neighbours c)"
  then obtain d where "c = AddDelta c (Directions d)" unfolding Neighbours_iff ..
  then have "X c = X c + X (Directions d) \<and> Y c = Y c + Y (Directions d)"
    by (metis AddDelta_def AddMultDelta_def HexCoord.select_convs(1,2) mult_1)
  then show False by (cases d) simp_all
qed

lemma Neighbours_distinct: "distinct (Neighbours c) \<and> length (Neighbours c) = 6"
  by (simp add: Neighbours_def OrderedDirections_def AddDelta_def AddMultDelta_def)

text \<open>
  The radius of a coordinate and of its negation are the same, and the radius of the
  origin is 0. A coordinate has six neighbours, all different and none of them the
  coordinate itself, and it is a neighbour of each of its neighbours.
\<close>

theorem Radius_and_Neighbours:
  "Radius (Negation c) = Radius c \<and> Radius Origin = Inr 0 \<and>
   length (Neighbours c) = 6 \<and> distinct (Neighbours c) \<and> c \<notin> set (Neighbours c) \<and>
   (\<forall>n \<in> set (Neighbours c). c \<in> set (Neighbours n))"
  using Neighbours_distinct [of c] Neighbours_irrefl [of c]
  by (auto simp: Radius_Negation Radius_Origin Neighbours_symmetric)

theorem Radius_and_Neighbours_witness:
  "NewHex 1 1 \<in> set (Neighbours Origin) \<and> Origin \<in> set (Neighbours (NewHex 1 1)) \<and>
   Radius (Negation (NewHex 3 5)) = Inr 4"
proof -
  have n: "NewHex 1 1 \<in> set (Neighbours Origin)" by code_simp
  have r: "Radius (NewHex 3 5) = Inr 4" by code_simp
  from Radius_and_Neighbours [of Origin] n have "Origin \<in> set (Neighbours (NewHex 1 1))" by blast
  moreover from Radius_and_Neighbours [of "NewHex 3 5"] r
  have "Radius (Negation (NewHex 3 5)) = Inr 4" by simp
  ultimately show ?thesis using n by blast
qed

subsection \<open>Move, the encoding and parity\<close>

text \<open>
  Claim C4. \<^verbatim>\<open>Move\<close> is meant to be a fold over the directions: starting at \<open>c\<close>, add the
  delta of each direction in order. The code adds the delta of the last direction only,
  to the receiver: \<^verbatim>\<open>Origin.Move(North, North)\<close> is (0,2), where the fold gives (0,4).
  (On the empty sequence \<^verbatim>\<open>Move\<close> returns \<open>c\<close>, as the claim says.)
\<close>

theorem Move_North_North_is_not_the_fold:
  "Move Origin [North, North] = \<lparr>X = 0, Y = 2\<rparr> \<and>
   Move_spec Origin [North, North] = \<lparr>X = 0, Y = 4\<rparr> \<and>
   Move Origin [] = Origin"
  by (simp add: Move_def Move_spec_def Origin_def AddDelta_def AddMultDelta_def Let_def)

text \<open>
  Claim C6, as stated: every valid coordinate round-trips through \<^verbatim>\<open>ToProto\<close> and
  \<^verbatim>\<open>HexFromProto\<close>. It fails for a coordinate outside the 32-bit range of the encoding:
  (4294967296, 0) is valid, is encoded as {0, 0} and decodes to the origin.
\<close>

theorem roundtrip_counterexample:
  "valid_hex \<lparr>X = 4294967296, Y = 0\<rparr> \<and>
   HexFromProto (ToProto \<lparr>X = 4294967296, Y = 0\<rparr>) = Inr \<lparr>X = 0, Y = 0\<rparr> \<and>
   HexFromProto (ToProto \<lparr>X = 4294967296, Y = 0\<rparr>) \<noteq> Inr \<lparr>X = 4294967296, Y = 0\<rparr>"
  by (simp add: valid_hex_def HexFromProto_def ToProto_def TryNewHex_eq)

text \<open>
  Claim C6, amended. For every valid coordinate \<open>c\<close>, decoding the encoding of \<open>c\<close>
  succeeds, and it returns \<open>c\<close> itself when both fields of \<open>c\<close> lie in the 32-bit signed
  range; and decoding an encoded pair whose two integers have unequal parity fails with
  the invalid-coordinate error.
\<close>

theorem HexFromProto_ToProto:
  "(valid_hex c \<longrightarrow> (\<exists>c'. HexFromProto (ToProto c) = Inr c')) \<and>
   (valid_hex c \<and> - (2 ^ 31) \<le> X c \<and> X c < 2 ^ 31 \<and> - (2 ^ 31) \<le> Y c \<and> Y c < 2 ^ 31
      \<longrightarrow> HexFromProto (ToProto c) = Inr c) \<and>
   (even (sint (pb_X p)) \<noteq> even (sint (pb_Y p)) \<longrightarrow> HexFromProto p = Inl InvalidCoordinate)"
proof (intro conjI impI)
  have ev: "even (sint (word_of_int k :: 32 word)) = even k" for k :: int
    by (simp add: sint_sbintrunc' even_signed_take_bit_iff)
  show "\<exists>c'. HexFromProto (ToProto c) = Inr c'" if "valid_hex c"
    using that by (simp add: HexFromProto_def ToProto_def TryNewHex_eq ev valid_hex_def)
  show "HexFromProto (ToProto c) = Inr c"
    if "valid_hex c \<and> - (2 ^ 31) \<le> X c \<and> X c < 2 ^ 31 \<and> - (2 ^ 31) \<le> Y c \<and> Y c < 2 ^ 31"
  proof -
    have "sint (word_of_int (X c) :: 32 word) = X c" "sint (word_of_int (Y c) :: 32 word) = Y c"
      using that by (simp_all add: sint_sbintrunc' signed_take_bit_int_eq_self)
    then show ?thesis
      using that by (simp add: HexFromProto_def ToProto_def TryNewHex_eq valid_hex_def)
  qed
  show "HexFromProto p = Inl InvalidCoordinate" if "even (sint (pb_X p)) \<noteq> even (sint (pb_Y p))"
    using that by (simp add: HexFromProto_def TryNewHex_eq)
qed

theorem HexFromProto_ToProto_witness:
  "valid_hex \<lparr>X = 3, Y = -5\<rparr> \<and>
   HexFromProto (ToProto \<lparr>X = 3, Y = -5\<rparr>) = Inr \<lparr>X = 3, Y = -5\<rparr> \<and>
   even (sint (pb_X \<lparr>pb_X = 1, pb_Y = 2\<rparr>)) \<noteq> even (sint (pb_Y \<lparr>pb_X = 1, pb_Y = 2\<rparr>)) \<and>
   HexFromProto \<lparr>pb_X = 1, pb_Y = 2\<rparr> = Inl InvalidCoordinate"
  using HexFromProto_ToProto [of "\<lparr>X = 3, Y = -5\<rparr>" "\<lparr>pb_X = 1, pb_Y = 2\<rparr>"]
  by (simp add: valid_hex_def)



section \<open>Properties of the cell sets\<close>

subsection \<open>Membership after the set operations\<close>


lemma Contains_Clone: "Contains (Clone h) c = Contains h c"
  by (simp add: Clone_def)




subsection \<open>Sets that stay primitive\<close>





subsection \<open>Operations on valid coordinates do not panic\<close>

lemma hexSetBottom_Add_valid: "valid_hex p \<Longrightarrow> fst (hexSetBottom_Add h p) = None"
  by (auto simp: hexSetBottom_Add_def Let_def dest: Radius_valid split: sum.splits)

lemma hexSetBottom_Remove_valid: "valid_hex p \<Longrightarrow> fst (hexSetBottom_Remove h p) = None"
  by (auto simp: hexSetBottom_Remove_def Let_def dest: Radius_valid split: sum.splits)

lemma Add_valid: "valid_hex p \<Longrightarrow> fst (Add s p) = None"
proof (cases s)
  case (Bottom h)
  assume "valid_hex p"
  from hexSetBottom_Add_valid [OF this, of h] Bottom show ?thesis
    by (auto split: prod.splits)
next
  case (ModifiedClone f m a r)
  assume v: "valid_hex p"
  define a0 where "a0 = (if m then a else new_hexSetBottom)"
  define r0 where "r0 = (if m then r else new_hexSetBottom)"
  obtain e1 r1 where rm:
    "(if hexSetBottom_Contains r0 p then hexSetBottom_Remove r0 p else (None, r0)) = (e1, r1)"
    by fastforce
  have e1: "e1 = None"
    using rm hexSetBottom_Remove_valid [OF v, of r0] by (auto split: if_splits)
  obtain e2 a2 where ad: "hexSetBottom_Add a0 p = (e2, a2)"
    by fastforce
  have e2: "e2 = None"
    using ad hexSetBottom_Add_valid [OF v, of a0] by simp
  show ?thesis
    unfolding ModifiedClone Add.simps Let_def a0_def [symmetric] r0_def [symmetric] rm
    by (simp add: ad e1 e2)
qed


subsection \<open>Adding, removing and cloning\<close>

lemma Contains_Remove:
  assumes "Remove s p = (None, s')"
  shows "Contains s' c = (Contains s c \<and> c \<noteq> p)"
proof (cases s)
  case (Bottom h)
  with assms show ?thesis
    by (auto simp: hexSetBottom_Contains_def split: prod.splits dest: hexSetBottom_Remove_members)
next
  case (ModifiedClone f m a r)
  define a0 where "a0 = (if m then a else new_hexSetBottom)"
  define r0 where "r0 = (if m then r else new_hexSetBottom)"
  obtain e1 a1 where rm:
    "(if hexSetBottom_Contains a0 p then hexSetBottom_Remove a0 p else (None, a0)) = (e1, a1)"
    by fastforce
  have a1: "set (members a1) = set (members a0) - {p}"
    using rm by (auto simp: hexSetBottom_Contains_def split: if_splits
                      dest: hexSetBottom_Remove_members)
  obtain e2 r2 where ad: "hexSetBottom_Add r0 p = (e2, r2)"
    by fastforce
  have r2: "set (members r2) = insert p (set (members r0))"
    using ad by (rule hexSetBottom_Add_members)
  have old: "Contains s c = (if Contains f c then c \<notin> set (members r0) else c \<in> set (members a0))"
    by (simp add: ModifiedClone a0_def r0_def hexSetBottom_Contains_def new_hexSetBottom_def)
  have unfolded: "Remove s p =
      (case e1 of Some e \<Rightarrow> (Some e, ModifiedClone f True a1 r0)
       | None \<Rightarrow> if \<not> Contains f p then (None, ModifiedClone f True a1 r0)
                 else (e2, ModifiedClone f True a1 r2))"
    unfolding ModifiedClone Remove.simps Let_def a0_def [symmetric] r0_def [symmetric] rm
    by (simp add: ad split: option.splits)
  show ?thesis
  proof (cases "Contains f p")
    case False
    with assms unfolded have "s' = ModifiedClone f True a1 r0"
      by (auto split: option.splits)
    with False show ?thesis
      by (auto simp: old a1 hexSetBottom_Contains_def)
  next
    case True
    with assms unfolded have "s' = ModifiedClone f True a1 r2"
      by (auto split: option.splits)
    with True show ?thesis
      by (auto simp: old a1 r2 hexSetBottom_Contains_def)
  qed
qed

lemma Remove_valid: "valid_hex p \<Longrightarrow> fst (Remove s p) = None"
proof (cases s)
  case (Bottom h)
  assume "valid_hex p"
  from hexSetBottom_Remove_valid [OF this, of h] Bottom show ?thesis
    by (auto split: prod.splits)
next
  case (ModifiedClone f m a r)
  assume v: "valid_hex p"
  define a0 where "a0 = (if m then a else new_hexSetBottom)"
  define r0 where "r0 = (if m then r else new_hexSetBottom)"
  obtain e1 a1 where rm:
    "(if hexSetBottom_Contains a0 p then hexSetBottom_Remove a0 p else (None, a0)) = (e1, a1)"
    by fastforce
  have e1: "e1 = None"
    using rm hexSetBottom_Remove_valid [OF v, of a0] by (auto split: if_splits)
  obtain e2 r2 where ad: "hexSetBottom_Add r0 p = (e2, r2)"
    by fastforce
  have e2: "e2 = None"
    using ad hexSetBottom_Add_valid [OF v, of r0] by simp
  show ?thesis
    unfolding ModifiedClone Remove.simps Let_def a0_def [symmetric] r0_def [symmetric] rm
    by (simp add: ad e1 e2)
qed

text \<open>
  Membership after the set operations. \<^verbatim>\<open>Add\<close> and \<^verbatim>\<open>Remove\<close> of a valid coordinate
  \<open>p\<close> do not panic, on a primitive set and on a clone alike; after \<^verbatim>\<open>Add\<close> the set contains
  \<open>p\<close> and what it contained before, after \<^verbatim>\<open>Remove\<close> it contains what it contained before
  except \<open>p\<close>; and a clone contains what the set it was cloned from contains.
\<close>

theorem Add_Remove_membership:
  "valid_hex p \<longrightarrow>
     fst (Add s p) = None \<and> fst (Remove s p) = None \<and>
     (\<forall>c. Contains (snd (Add s p)) c = (Contains s c \<or> c = p)) \<and>
     (\<forall>c. Contains (snd (Remove s p)) c = (Contains s c \<and> c \<noteq> p)) \<and>
     (\<forall>c. Contains (Clone s) c = Contains s c)"
proof (intro impI conjI allI)
  assume v: "valid_hex p"
  show a: "fst (Add s p) = None" by (rule Add_valid [OF v])
  show r: "fst (Remove s p) = None" by (rule Remove_valid [OF v])
  show "Contains (snd (Add s p)) c = (Contains s c \<or> c = p)" for c
    using a Contains_Add [of s p "snd (Add s p)" c] by (cases "Add s p") simp
  show "Contains (snd (Remove s p)) c = (Contains s c \<and> c \<noteq> p)" for c
    using r Contains_Remove [of s p "snd (Remove s p)" c] by (cases "Remove s p") simp
  show "Contains (Clone s) c = Contains s c" for c
    by (rule Contains_Clone)
qed

theorem Add_Remove_membership_witness:
  "valid_hex (NewHex 1 1) \<and>
   Contains (snd (Add (Clone ring1) (NewHex 3 3))) (NewHex 3 3) \<and>
   \<not> Contains (snd (Remove (Clone ring1) (NewHex 1 1))) (NewHex 1 1) \<and>
   Contains (snd (Remove (Clone ring1) (NewHex 1 1))) (NewHex 0 2)"
proof -
  have v: "valid_hex (NewHex 1 1)" "valid_hex (NewHex 3 3)"
    by (simp_all add: valid_hex_def NewHex_def)
  have c: "Contains ring1 (NewHex 0 2)" by code_simp
  have n: "NewHex 0 2 \<noteq> NewHex 1 1" by (simp add: NewHex_def)
  have a: "\<forall>c. Contains (snd (Add (Clone ring1) (NewHex 3 3))) c
             = (Contains (Clone ring1) c \<or> c = NewHex 3 3)"
    using Add_Remove_membership [of "NewHex 3 3" "Clone ring1"] v(2) by simp
  have r: "\<forall>c. Contains (snd (Remove (Clone ring1) (NewHex 1 1))) c
             = (Contains (Clone ring1) c \<and> c \<noteq> NewHex 1 1)"
    using Add_Remove_membership [of "NewHex 1 1" "Clone ring1"] v(1) by simp
  show ?thesis
    using v(1) c n by (simp add: a r Contains_Clone)
qed

subsection \<open>The radius cache of a primitive set\<close>

lemma Radius_nonneg: "Radius c = Inr r \<Longrightarrow> 0 \<le> r"
  using Radius_Inr_bounds(1) [of c r] by simp

lemma Radius_0: "Radius c = Inr 0 \<Longrightarrow> c = Origin"
proof -
  assume "Radius c = Inr 0"
  from Radius_Inr_bounds [OF this] have "X c = 0" "Y c = 0" by simp_all
  then show ?thesis by (simp add: Origin_def)
qed

lemma maxRadius_loop_append:
  "maxRadius_loop (xs @ ys) rv =
     (case maxRadius_loop xs rv of Inl e \<Rightarrow> Inl e | Inr m \<Rightarrow> maxRadius_loop ys m)"
  by (induction xs arbitrary: rv) (auto split: sum.splits)

lemma maxRadius_loop_valid:
  "\<forall>c \<in> set xs. valid_hex c \<Longrightarrow> \<exists>m. maxRadius_loop xs rv = Inr m"
proof (induction xs arbitrary: rv)
  case Nil
  then show ?case by simp
next
  case (Cons x xs)
  then obtain r where "Radius x = Inr r" using Radius_valid [of x] by auto
  with Cons show ?case by simp
qed

lemma maxRadius_loop_ge:
  "maxRadius_loop xs rv = Inr m \<Longrightarrow> rv \<le> m \<and> (\<forall>c \<in> set xs. \<forall>r. Radius c = Inr r \<longrightarrow> r \<le> m)"
proof (induction xs arbitrary: rv)
  case Nil
  then show ?case by simp
next
  case (Cons x xs)
  then obtain r where r: "Radius x = Inr r"
    and l: "maxRadius_loop xs (if r > rv then r else rv) = Inr m"
    by (auto split: sum.splits)
  from Cons.IH [OF l] r show ?case by (auto split: if_splits)
qed

lemma maxRadius_loop_mono_start:
  "maxRadius_loop xs rv = Inr m \<Longrightarrow> rv \<le> rv' \<Longrightarrow> rv' \<le> m \<Longrightarrow> maxRadius_loop xs rv' = Inr m"
proof (induction xs arbitrary: rv rv')
  case Nil
  then show ?case by simp
next
  case (Cons x xs)
  then obtain r where r: "Radius x = Inr r"
    and l: "maxRadius_loop xs (if r > rv then r else rv) = Inr m"
    by (auto split: sum.splits)
  have "r \<le> m" using maxRadius_loop_ge [OF l] by (auto split: if_splits)
  with Cons.IH [OF l, of "if r > rv' then r else rv'"] Cons.prems(2,3) r show ?case
    by (auto split: if_splits)
qed

lemma maxRadius_loop_remove:
  assumes "maxRadius_loop xs rv = Inr m" and "Radius p = Inr r" and "r \<noteq> m"
  shows "maxRadius_loop (removeAll p xs) rv = Inr m"
  using assms(1)
proof (induction xs arbitrary: rv)
  case Nil
  then show ?case by simp
next
  case (Cons x xs)
  then obtain rx where rx: "Radius x = Inr rx"
    and l: "maxRadius_loop xs (if rx > rv then rx else rv) = Inr m"
    by (auto split: sum.splits)
  show ?case
  proof (cases "x = p")
    case False
    with Cons.IH [OF l] rx show ?thesis by simp
  next
    case True
    with rx assms(2) have "rx = r" by simp
    moreover have "rx \<le> m" "rv \<le> m"
      using maxRadius_loop_ge [OF l] by (auto split: if_splits)
    ultimately have "maxRadius_loop (removeAll p xs) (if rx > rv then rx else rv) = Inr m"
      using Cons.IH [OF l] by simp
    have "maxRadius_loop xs rv = Inr m"
    proof (cases "rx > rv")
      case False
      with l show ?thesis by simp
    next
      case gt: True
      have "rx < m" using \<open>rx = r\<close> \<open>rx \<le> m\<close> assms(3) by simp
      from l gt have l': "maxRadius_loop xs rx = Inr m" by simp
      show ?thesis using l' gt \<open>rx < m\<close>
      proof (induction xs arbitrary: rv rx)
        case Nil
        then show ?case by simp
      next
        case (Cons y ys)
        then obtain ry where ry: "Radius y = Inr ry"
          and ly: "maxRadius_loop ys (if ry > rx then ry else rx) = Inr m"
          by (auto split: sum.splits)
        show ?case
        proof (cases "ry > rx")
          case True
          with ly ry Cons.prems(2) show ?thesis by simp
        next
          case False
          with ly have lx: "maxRadius_loop ys rx = Inr m" by simp
          show ?thesis
          proof (cases "ry > rv")
            case True
            have "ry \<le> rx" using False by simp
            moreover have "ry < rx \<or> ry = rx" using False by auto
            ultimately show ?thesis
              using Cons.IH [OF lx, of ry] lx ry True Cons.prems(3) by auto
          next
            case False
            with Cons.IH [OF lx Cons.prems(2,3)] ry show ?thesis by simp
          qed
        qed
      qed
    qed
    from Cons.IH [OF this] True show ?thesis by simp
  qed
qed

lemma bottom_ok_new: "bottom_ok new_hexSetBottom"
  by (simp add: bottom_ok_def new_hexSetBottom_def)

lemma bottom_ok_Add:
  assumes "bottom_ok h" and "valid_hex p"
  shows "fst (hexSetBottom_Add h p) = None \<and> bottom_ok (snd (hexSetBottom_Add h p))"
proof -
  obtain r where r: "Radius p = Inr r" using Radius_valid [OF assms(2)] by blast
  have d: "distinct (members h)" and v: "\<forall>c \<in> set (members h). valid_hex c"
    and c: "cachedMaxRadius h = - 1 \<or> maxRadius_loop (members h) 0 = Inr (cachedMaxRadius h)"
    using assms(1) by (simp_all add: bottom_ok_def list_all_iff)
  show ?thesis
  proof (cases "p \<in> set (members h)")
    case True
    have "cachedMaxRadius h \<noteq> - 1 \<Longrightarrow> r \<le> cachedMaxRadius h"
      using c maxRadius_loop_ge [of "members h" 0 "cachedMaxRadius h"] True r by auto
    with True r assms(1) show ?thesis
      by (auto simp: hexSetBottom_Add_def Let_def bottom_ok_def)
  next
    case False
    have loop: "maxRadius_loop (members h @ [p]) 0 = Inr (if r > m then r else m)"
      if "maxRadius_loop (members h) 0 = Inr m" for m
      using that r by (simp add: maxRadius_loop_append)
    from False r d v assms(2) c loop show ?thesis
      by (auto simp: hexSetBottom_Add_def Let_def bottom_ok_def list_all_iff)
  qed
qed

lemma bottom_ok_Remove:
  assumes "bottom_ok h" and "valid_hex p"
  shows "fst (hexSetBottom_Remove h p) = None \<and> bottom_ok (snd (hexSetBottom_Remove h p))"
proof -
  obtain r where r: "Radius p = Inr r" using Radius_valid [OF assms(2)] by blast
  have d: "distinct (members h)" and v: "\<forall>c \<in> set (members h). valid_hex c"
    and c: "cachedMaxRadius h = - 1 \<or> maxRadius_loop (members h) 0 = Inr (cachedMaxRadius h)"
    using assms(1) by (simp_all add: bottom_ok_def list_all_iff)
  have keep: "maxRadius_loop (removeAll p (members h)) 0 = Inr (cachedMaxRadius h)"
    if "cachedMaxRadius h \<noteq> - 1" "r \<noteq> cachedMaxRadius h"
    using c that r by (auto intro: maxRadius_loop_remove)
  from r d v keep show ?thesis
    by (auto simp: hexSetBottom_Remove_def Let_def bottom_ok_def list_all_iff distinct_removeAll)
qed

lemma bottom_ok_MaxRadius:
  assumes "bottom_ok h"
  shows "\<exists>m h'. hexSetBottom_MaxRadius h = (Inr m, h') \<and> maxRadius_loop (members h) 0 = Inr m \<and>
                bottom_ok h'"
proof -
  have d: "distinct (members h)" and v: "\<forall>c \<in> set (members h). valid_hex c"
    and c: "cachedMaxRadius h = - 1 \<or> maxRadius_loop (members h) 0 = Inr (cachedMaxRadius h)"
    using assms(1) by (simp_all add: bottom_ok_def list_all_iff)
  from maxRadius_loop_valid [OF v, of 0] obtain m where m: "maxRadius_loop (members h) 0 = Inr m"
    by blast
  show ?thesis
  proof (cases "cachedMaxRadius h = 0")
    case True
    with c m have m0: "m = 0" by simp
    have all0: "c = Origin" if "c \<in> set (members h)" for c
    proof -
      from v that obtain r where r: "Radius c = Inr r" using Radius_valid by blast
      with maxRadius_loop_ge [OF m] that m0 have "r \<le> 0" by blast
      with Radius_nonneg [OF r] r show ?thesis by (auto intro: Radius_0)
    qed
    have "members h = [] \<or> members h = [Origin]"
    proof (cases "members h")
      case Nil
      then show ?thesis by simp
    next
      case (Cons x xs)
      with all0 have x: "x = Origin" and xs: "\<forall>y \<in> set xs. y = Origin" by auto
      with d Cons have "xs = []" by (cases xs) auto
      with x Cons show ?thesis by simp
    qed
    with True m m0 assms show ?thesis
      by (auto simp: hexSetBottom_MaxRadius_def hexSetBottom_Size_def hexSetBottom_Contains_def)
  next
    case False
    with c m assms show ?thesis
      by (auto simp: hexSetBottom_MaxRadius_def bottom_ok_def)
  qed
qed

lemma bottom_ok_proper: "bottom_ok h \<Longrightarrow> proper (Bottom h)"
  using bottom_ok_MaxRadius [of h]
  by (auto simp: proper_def bottom_ok_def hexSetBottom_Enumerate_def)

text \<open>
  The radius cache of a primitive set is kept right. The storage of \<^verbatim>\<open>NewHexSet()\<close> is in
  order; \<^verbatim>\<open>Add\<close> and \<^verbatim>\<open>Remove\<close> of a valid coordinate do not panic and keep the storage
  in order; and on a storage in order \<^verbatim>\<open>MaxRadius\<close> returns the maximum radius of the
  members (0 for the empty set), leaves the storage in order, and the set is proper.
\<close>

theorem radius_cache_invariant:
  "bottom_ok new_hexSetBottom \<and>
   (bottom_ok h \<and> valid_hex p \<longrightarrow>
      fst (hexSetBottom_Add h p) = None \<and> bottom_ok (snd (hexSetBottom_Add h p)) \<and>
      fst (hexSetBottom_Remove h p) = None \<and> bottom_ok (snd (hexSetBottom_Remove h p))) \<and>
   (bottom_ok h \<longrightarrow>
      proper (Bottom h) \<and>
      (\<exists>m h'. hexSetBottom_MaxRadius h = (Inr m, h') \<and> maxRadius_loop (members h) 0 = Inr m \<and>
              bottom_ok h'))"
  using bottom_ok_new bottom_ok_Add [of h p] bottom_ok_Remove [of h p] bottom_ok_proper [of h]
    bottom_ok_MaxRadius [of h]
  by blast

theorem radius_cache_invariant_witness:
  "bottom_ok new_hexSetBottom \<and> valid_hex (NewHex 0 2) \<and>
   bottom_ok (snd (hexSetBottom_Add new_hexSetBottom (NewHex 0 2))) \<and>
   proper (Bottom (snd (hexSetBottom_Add new_hexSetBottom (NewHex 0 2)))) \<and>
   fst (hexSetBottom_MaxRadius (snd (hexSetBottom_Add new_hexSetBottom (NewHex 0 2)))) = Inr 1"
proof -
  have v: "valid_hex (NewHex 0 2)" by (simp add: valid_hex_def NewHex_def)
  have m: "fst (hexSetBottom_MaxRadius (snd (hexSetBottom_Add new_hexSetBottom (NewHex 0 2)))) = Inr 1"
    by code_simp
  from radius_cache_invariant [of new_hexSetBottom "NewHex 0 2"] v
  have n: "bottom_ok new_hexSetBottom"
    and a: "bottom_ok (snd (hexSetBottom_Add new_hexSetBottom (NewHex 0 2)))"
    by blast+
  from radius_cache_invariant [of "snd (hexSetBottom_Add new_hexSetBottom (NewHex 0 2))"] a
  have "proper (Bottom (snd (hexSetBottom_Add new_hexSetBottom (NewHex 0 2))))"
    by blast
  with n v a m show ?thesis by blast
qed

subsection \<open>The ordered list\<close>







section \<open>Properties of hole filling\<close>

subsection \<open>The queue and one iteration of the flood\<close>








subsection \<open>The flood loop\<close>





subsection \<open>The candidate hole cells\<close>




subsection \<open>The loop over the candidates\<close>









subsection \<open>The filled set\<close>









section \<open>Properties of the outer border\<close>







section \<open>The order in which a flood visits cells\<close>







section \<open>Clones and frozen sets in the store\<close>

lemma HexSet_ensureThawed_frozen:
  "objects \<sigma> a = Some s \<Longrightarrow> frozen s \<Longrightarrow> HexSet_ensureThawed a \<sigma> = (Inl FrozenSetMutation, \<sigma>)"
  by (simp add: HexSet_ensureThawed_def)

lemma HexSet_Add_frozen:
  "objects \<sigma> a = Some s \<Longrightarrow> frozen s \<Longrightarrow> HexSet_Add a x \<sigma> = (Inl FrozenSetMutation, \<sigma>)"
  by (simp add: HexSet_Add_def HexSet_ensureThawed_frozen)

lemma HexSet_Remove_frozen:
  "objects \<sigma> a = Some s \<Longrightarrow> frozen s \<Longrightarrow> HexSet_Remove a x \<sigma> = (Inl FrozenSetMutation, \<sigma>)"
  by (simp add: HexSet_Remove_def HexSet_ensureThawed_frozen)

text \<open>
  Claim C1. A clone is meant to keep the elements its source had when it was cloned, minus
  what the clone removed, plus what the clone added, whatever happens to the source later;
  a rescue is meant to keep the deltas of the dependent clones. The code does not: with
  \<^verbatim>\<open>A := NewHexSet()\<close> (address 0), \<^verbatim>\<open>B := A.Clone()\<close> (address 1) and \<^verbatim>\<open>B.Add((1,1))\<close>, the
  clone contains (1,1); after \<^verbatim>\<open>A.Add((2,2))\<close>, whose \<^verbatim>\<open>ensureThawed\<close> rescues \<open>B\<close> by
  giving it a new, empty delta over the snapshot, \<open>B\<close> no longer contains (1,1).
\<close>

theorem rescue_drops_the_deltas_of_a_clone:
  "(let \<sigma>1 = snd (HexSet_NewHexSet empty_heap);
        \<sigma>2 = snd (HexSet_Clone 0 \<sigma>1);
        \<sigma>3 = snd (HexSet_Add 1 (NewHex 1 1) \<sigma>2);
        \<sigma>4 = snd (HexSet_Add 0 (NewHex 2 2) \<sigma>3)
    in fst (HexSet_NewHexSet empty_heap) = 0 \<and>
       fst (HexSet_Clone 0 \<sigma>1) = Inr 1 \<and>
       fst (HexSet_Add 1 (NewHex 1 1) \<sigma>2) = Inr () \<and>
       HexSet_Contains \<sigma>3 1 (NewHex 1 1) = Inr True \<and>
       fst (HexSet_Add 0 (NewHex 2 2) \<sigma>3) = Inr () \<and>
       HexSet_Contains \<sigma>4 1 (NewHex 1 1) = Inr False \<and>
       HexSet_Contains \<sigma>4 1 (NewHex 2 2) = Inr False \<and>
       HexSet_Contains \<sigma>4 0 (NewHex 2 2) = Inr True)"
  by code_simp

text \<open>
  Claim C5. Every mutating operation on a frozen set is meant to fail with the
  frozen-set error and to leave the set as it was. \<^verbatim>\<open>Add\<close> and \<^verbatim>\<open>Remove\<close> do (they call
  \<^verbatim>\<open>ensureThawed\<close> first, and so do \<^verbatim>\<open>Filter\<close> and \<^verbatim>\<open>ExpandFiltered\<close> through them);
  \<^verbatim>\<open>InPlaceUnion\<close> calls \<^verbatim>\<open>h.impl.Add\<close> without \<^verbatim>\<open>ensureThawed\<close>: on the frozen empty set
  at address 0 and the set {origin} at address 1 it returns normally, and the frozen set
  then contains the origin.
\<close>

theorem InPlaceUnion_mutates_a_frozen_set:
  "(let \<sigma>1 = snd (HexSet_NewHexSet empty_heap);
        \<sigma>2 = snd (HexSet_Freeze 0 \<sigma>1);
        \<sigma>3 = snd (HexSet_NewHexSet \<sigma>2);
        \<sigma>4 = snd (HexSet_Add 1 Origin \<sigma>3);
        \<sigma>5 = snd (HexSet_InPlaceUnion 0 1 \<sigma>4)
    in fst (HexSet_Freeze 0 \<sigma>1) = Inr () \<and>
       fst (HexSet_NewHexSet \<sigma>2) = 1 \<and>
       fst (HexSet_Add 1 Origin \<sigma>3) = Inr () \<and>
       fst (HexSet_Add 0 Origin \<sigma>4) = Inl FrozenSetMutation \<and>
       fst (HexSet_Remove 0 Origin \<sigma>4) = Inl FrozenSetMutation \<and>
       HexSet_Contains \<sigma>4 0 Origin = Inr False \<and>
       fst (HexSet_InPlaceUnion 0 1 \<sigma>4) = Inr () \<and>
       HexSet_Contains \<sigma>5 0 Origin = Inr True)"
  by code_simp

text \<open>
  \<^verbatim>\<open>Add\<close> and \<^verbatim>\<open>Remove\<close> on a frozen set panic with the frozen-set error and leave the
  store as it was: the set, its clones and every other object are unchanged.
\<close>

theorem frozen_set_rejects_Add_and_Remove:
  "objects \<sigma> a = Some s \<and> frozen s \<longrightarrow>
     HexSet_Add a x \<sigma> = (Inl FrozenSetMutation, \<sigma>) \<and>
     HexSet_Remove a x \<sigma> = (Inl FrozenSetMutation, \<sigma>)"
  by (simp add: HexSet_Add_def HexSet_Remove_def HexSet_ensureThawed_def)

theorem frozen_set_rejects_Add_and_Remove_witness:
  "(let \<sigma> = snd (HexSet_Freeze 0 (snd (HexSet_NewHexSet empty_heap)))
    in (\<exists>s. objects \<sigma> 0 = Some s \<and> frozen s) \<and>
       HexSet_Add 0 Origin \<sigma> = (Inl FrozenSetMutation, \<sigma>) \<and>
       HexSet_Remove 0 Origin \<sigma> = (Inl FrozenSetMutation, \<sigma>))"
proof -
  define \<sigma> where "\<sigma> = snd (HexSet_Freeze 0 (snd (HexSet_NewHexSet empty_heap)))"
  have "\<exists>s. objects \<sigma> 0 = Some s \<and> frozen s"
    by (simp add: \<sigma>_def HexSet_Freeze_def HexSet_NewHexSet_def alloc_def put_def empty_heap_def)
  then obtain s where s: "objects \<sigma> 0 = Some s \<and> frozen s" ..
  from frozen_set_rejects_Add_and_Remove [of \<sigma> 0 s Origin] s
  have "HexSet_Add 0 Origin \<sigma> = (Inl FrozenSetMutation, \<sigma>)"
       "HexSet_Remove 0 Origin \<sigma> = (Inl FrozenSetMutation, \<sigma>)"
    by blast+
  with s show ?thesis
    unfolding \<sigma>_def [symmetric] Let_def by blast
qed

end
